theory Spec2Isabelle
  imports
    Complex_Main
    "HOL-Library.Sublist"
    "HOL-Library.List_Lexorder"
    "HOL-Library.Product_Lexorder"
begin

section \<open>Python strings\<close>

text \<open>
  A Python \<^verbatim>\<open>str\<close> is a sequence of Unicode code points, so a text is a list of
  code points (natural numbers) rather than a list of bytes. The ASCII literals of the
  source are written \<open>lit ''...''\<close>.
\<close>

type_synonym codepoint = nat
type_synonym str = "codepoint list"

definition lit :: "string \<Rightarrow> str" where
  "lit s = map (of_char :: char \<Rightarrow> nat) s"

text \<open>
  \<^verbatim>\<open>str.isspace\<close> on one code point: the whitespace code points of CPython
  (U+0009..U+000D, U+001C..U+0020, U+0085, U+00A0, U+1680, U+2000..U+200A, U+2028,
  U+2029, U+202F, U+205F, U+3000).
\<close>

definition isspace :: "codepoint \<Rightarrow> bool" where
  "isspace c =
     ((9 \<le> c \<and> c \<le> 13) \<or> (28 \<le> c \<and> c \<le> 32) \<or> c = 133 \<or> c = 160 \<or> c = 5760 \<or>
      (8192 \<le> c \<and> c \<le> 8202) \<or> c = 8232 \<or> c = 8233 \<or> c = 8239 \<or> c = 8287 \<or>
      c = 12288)"

text \<open>\<^verbatim>\<open>s.strip()\<close>: whitespace removed at both ends.\<close>

definition strip :: "str \<Rightarrow> str" where
  "strip s = rev (dropWhile isspace (rev (dropWhile isspace s)))"

text \<open>\<^verbatim>\<open>s.startswith(p)\<close>.\<close>

definition startswith :: "str \<Rightarrow> str \<Rightarrow> bool" where
  "startswith s p = prefix p s"

section \<open>Extraction (\<^verbatim>\<open>4_extract_user_and_assistant_prompts.py\<close>)\<close>

text \<open>
  The value \<^verbatim>\<open>json.load\<close> returns. An object is the decoded \<^verbatim>\<open>dict\<close>, as the list
  of its items in insertion order (the keys of a \<^verbatim>\<open>dict\<close> are distinct). The code never
  looks into a number. Python's \<^verbatim>\<open>None\<close> is \<open>JNull\<close>.
\<close>

datatype json =
    JNull
  | JBool bool
  | JNum int
  | JStr str
  | JArr "json list"
  | JObj "(str \<times> json) list"

text \<open>The exceptions the code can raise on a decoded value.\<close>

datatype error = AttributeError | TypeError

text \<open>
  \<^verbatim>\<open>x.get(key, default)\<close>: only a \<^verbatim>\<open>dict\<close> has the method; on any other value the
  attribute lookup raises \<^verbatim>\<open>AttributeError\<close>.
\<close>

fun py_get :: "json \<Rightarrow> str \<Rightarrow> json \<Rightarrow> error + json" where
  "py_get (JObj d) key dflt = Inr (case map_of d key of None \<Rightarrow> dflt | Some v \<Rightarrow> v)"
| "py_get _ key dflt = Inl AttributeError"

text \<open>
  \<^verbatim>\<open>for x in value\<close>: a list yields its elements, a string its characters (strings of
  length one), a \<^verbatim>\<open>dict\<close> its keys; any other value raises \<^verbatim>\<open>TypeError\<close>.
\<close>

fun py_iter :: "json \<Rightarrow> error + json list" where
  "py_iter (JArr xs) = Inr xs"
| "py_iter (JStr s) = Inr (map (\<lambda>c. JStr [c]) s)"
| "py_iter (JObj d) = Inr (map (\<lambda>(key, v). JStr key) d)"
| "py_iter _ = Inl TypeError"

text \<open>\<^verbatim>\<open>sep.join(parts)\<close>.\<close>

fun join :: "str \<Rightarrow> str list \<Rightarrow> str" where
  "join sep [] = []"
| "join sep [x] = x"
| "join sep (x # y # ys) = x @ sep @ join sep (y # ys)"

text \<open>
  \<^verbatim>\<open>normalize_content\<close>. The body of its \<^verbatim>\<open>for item in content\<close> loop is
  \<open>normalize_item\<close>, the pieces one item appends to \<^verbatim>\<open>parts\<close>. The result is a string
  or \<^verbatim>\<open>None\<close>.
\<close>

fun normalize_item :: "json \<Rightarrow> str list" where
  "normalize_item (JStr item) = (if strip item \<noteq> [] then [strip item] else [])"
| "normalize_item (JObj item) =
     (if map_of item (lit ''type'') = Some (JStr (lit ''text''))
      then (case map_of item (lit ''text'') of
              Some (JStr text_val) \<Rightarrow> (if strip text_val \<noteq> [] then [strip text_val] else [])
            | _ \<Rightarrow> [])
      else [])"
| "normalize_item _ = []"

fun normalize_content :: "json \<Rightarrow> str option" where
  "normalize_content (JStr content) = Some (strip content)"
| "normalize_content (JArr content) =
     (let parts = concat (map normalize_item content) in
      if parts \<noteq> [] then Some (strip (join [10] parts)) else None)"
| "normalize_content _ = None"

text \<open>
  A row of the output CSV: \<^verbatim>\<open>(str(file_path), text, role)\<close>.
\<close>

type_synonym csv_row = "str \<times> str \<times> str"

text \<open>
  The body of the \<^verbatim>\<open>try\<close> in the message loop of \<^verbatim>\<open>extract_prompts_from_file\<close>:
  the rows it appends, or the exception it raises.
\<close>

definition extract_message :: "str \<Rightarrow> json \<Rightarrow> error + csv_row list" where
  "extract_message file_path msg =
     (case py_get msg (lit ''role'') JNull of
        Inl e \<Rightarrow> Inl e
      | Inr role \<Rightarrow>
          (if role \<noteq> JStr (lit ''user'') \<and> role \<noteq> JStr (lit ''assistant'') then Inr []
           else (case py_get msg (lit ''content'') (JStr []) of
                   Inl e \<Rightarrow> Inl e
                 | Inr raw_content \<Rightarrow>
                     (case normalize_content raw_content of
                        None \<Rightarrow> Inr []
                      | Some text \<Rightarrow>
                          (if text \<noteq> []
                           then Inr [(file_path, text, (case role of JStr r \<Rightarrow> r | _ \<Rightarrow> []))]
                           else Inr [])))))"

text \<open>
  The message loop: an exception of the body is caught (a warning is printed) and the
  loop continues with the next message.
\<close>

fun message_loop :: "str \<Rightarrow> json list \<Rightarrow> csv_row list \<Rightarrow> csv_row list" where
  "message_loop file_path [] results = results"
| "message_loop file_path (msg # msgs) results =
     (case extract_message file_path msg of
        Inl e \<Rightarrow> message_loop file_path msgs results
      | Inr rows \<Rightarrow> message_loop file_path msgs (results @ rows))"

text \<open>
  \<^verbatim>\<open>extract_prompts_from_file\<close>. The file is given by what \<^verbatim>\<open>open\<close> and
  \<^verbatim>\<open>json.load\<close> make of it: \<open>None\<close> when one of them raises (the \<^verbatim>\<open>except\<close> branch
  prints a warning and returns the empty list), the decoded value otherwise. The two
  \<^verbatim>\<open>get\<close> calls and the \<^verbatim>\<open>for\<close> statement stand outside every \<^verbatim>\<open>try\<close>: their
  exception leaves the function.
\<close>

definition extract_prompts_from_file :: "str \<Rightarrow> json option \<Rightarrow> error + csv_row list" where
  "extract_prompts_from_file file_path loaded =
     (case loaded of
        None \<Rightarrow> Inr []
      | Some data \<Rightarrow>
          (case py_get data (lit ''request'') (JObj []) of
             Inl e \<Rightarrow> Inl e
           | Inr request_obj \<Rightarrow>
               (case py_get request_obj (lit ''messages'') (JArr []) of
                  Inl e \<Rightarrow> Inl e
                | Inr messages \<Rightarrow>
                    (case py_iter messages of
                       Inl e \<Rightarrow> Inl e
                     | Inr msgs \<Rightarrow> Inr (message_loop file_path msgs [])))))"

text \<open>
  The collecting loop of \<^verbatim>\<open>main\<close> over the files, in the order in which their
  futures complete: \<^verbatim>\<open>fut.result()\<close> raises again the exception of the worker, which
  nothing in \<^verbatim>\<open>main\<close> catches, so the run ends there and no CSV is written.
\<close>

fun collect_results :: "(str \<times> json option) list \<Rightarrow> csv_row list \<Rightarrow> error + csv_row list" where
  "collect_results [] all_rows = Inr all_rows"
| "collect_results ((file_path, loaded) # futures) all_rows =
     (case extract_prompts_from_file file_path loaded of
        Inl e \<Rightarrow> Inl e
      | Inr file_results \<Rightarrow> collect_results futures (all_rows @ file_results))"

definition main :: "(str \<times> json option) list \<Rightarrow> error + csv_row list" where
  "main json_files = collect_results json_files []"

section \<open>The two regular expressions of \<^verbatim>\<open>5_analyze_prompts.py\<close>\<close>

definition BEGIN_MARK :: str where
  "BEGIN_MARK = lit ''<tool_result>''"

definition END_MARK :: str where
  "END_MARK = lit ''</tool_result>''"

text \<open>
  The lazy group \<^verbatim>\<open>(.*?)\<close> followed by a literal \<open>pat\<close>, matched at the start of
  the text: the group is the shortest run of characters (any character, the pattern is
  compiled with DOTALL) after which \<open>pat\<close> follows. The result is the group and the
  text that remains after \<open>pat\<close>; \<open>None\<close> when \<open>pat\<close> never follows.
\<close>

fun lazy_until :: "str \<Rightarrow> str \<Rightarrow> (str \<times> str) option" where
  "lazy_until pat [] = (if pat = [] then Some ([], []) else None)"
| "lazy_until pat (c # cs) =
     (if prefix pat (c # cs) then Some ([], drop (length pat) (c # cs))
      else (case lazy_until pat cs of
              None \<Rightarrow> None
            | Some (g, rest) \<Rightarrow> Some (c # g, rest)))"

text \<open>
  \<^verbatim>\<open>TOOL_RESULT_PATTERN = re.compile(r"<tool_result>(.*?)</tool_result>", re.DOTALL)\<close>
  matched at the start of the text: group 1 and the text after the match.
\<close>

definition TOOL_RESULT_match :: "str \<Rightarrow> (str \<times> str) option" where
  "TOOL_RESULT_match s =
     (if prefix BEGIN_MARK s then lazy_until END_MARK (drop (length BEGIN_MARK) s)
      else None)"

text \<open>
  \<^verbatim>\<open>TOOL_RESULT_PATTERN.findall(prompt)\<close>: the scan tries a match at each position
  from left to right; after a match it goes on behind the match, otherwise one character
  further. The result is the list of the groups.
\<close>

function TOOL_RESULT_findall :: "str \<Rightarrow> str list" where
  "TOOL_RESULT_findall [] = []"
| "TOOL_RESULT_findall (c # cs) =
     (case TOOL_RESULT_match (c # cs) of
        Some (g, rest) \<Rightarrow> g # TOOL_RESULT_findall rest
      | None \<Rightarrow> TOOL_RESULT_findall cs)"
  by pat_completeness auto
termination
proof (relation "measure length")
  show "wf (measure (length :: str \<Rightarrow> nat))" by simp
next
  fix c :: codepoint and cs x y :: str and x2 :: "str \<times> str"
  assume m: "TOOL_RESULT_match (c # cs) = Some x2" and x2: "(x, y) = x2"
  have shorter: "lazy_until pat s = Some (g, r) \<Longrightarrow> length r \<le> length s" for pat s g r
    by (induction s arbitrary: g r) (auto split: if_splits option.splits)
  from m x2 have p: "prefix BEGIN_MARK (c # cs)"
    and l: "lazy_until END_MARK (drop (length BEGIN_MARK) (c # cs)) = Some (x, y)"
    by (auto simp: TOOL_RESULT_match_def split: if_splits)
  from p have "length BEGIN_MARK \<le> length (c # cs)" by (rule prefix_length_le)
  moreover have "0 < length BEGIN_MARK" by (simp add: BEGIN_MARK_def lit_def)
  moreover from shorter [OF l] have "length y \<le> length (c # cs) - length BEGIN_MARK" by simp
  ultimately have "length y < length (c # cs)" by arith
  then show "(y, c # cs) \<in> measure length" by simp
next
  fix c :: codepoint and cs :: str
  show "(cs, c # cs) \<in> measure length" by simp
qed

text \<open>
  \<^verbatim>\<open>INNER_TAG_PATTERN = re.compile(r"<([a-zA-Z0-9\-_]+)>")\<close>. The character class,
  the match at the start of a text (the greedy run of class characters must be non-empty
  and be followed by \<^verbatim>\<open>>\<close>; no shorter run can match, since a class
  character is not \<^verbatim>\<open>>\<close>), and \<^verbatim>\<open>search\<close>, which returns group 1 of the leftmost match.
\<close>

definition is_tag_char :: "codepoint \<Rightarrow> bool" where
  "is_tag_char c =
     ((of_char CHR ''a'' \<le> c \<and> c \<le> of_char CHR ''z'') \<or>
      (of_char CHR ''A'' \<le> c \<and> c \<le> of_char CHR ''Z'') \<or>
      (of_char CHR ''0'' \<le> c \<and> c \<le> of_char CHR ''9'') \<or>
      c = of_char CHR ''-'' \<or> c = of_char CHR ''_'')"

fun INNER_TAG_match :: "str \<Rightarrow> str option" where
  "INNER_TAG_match [] = None"
| "INNER_TAG_match (c # cs) =
     (if c = of_char CHR ''<'' \<and> takeWhile is_tag_char cs \<noteq> [] \<and>
         prefix (lit ''>'') (dropWhile is_tag_char cs)
      then Some (takeWhile is_tag_char cs) else None)"

fun INNER_TAG_search :: "str \<Rightarrow> str option" where
  "INNER_TAG_search [] = None"
| "INNER_TAG_search (c # cs) =
     (case INNER_TAG_match (c # cs) of
        Some tag \<Rightarrow> Some tag
      | None \<Rightarrow> INNER_TAG_search cs)"

section \<open>Token accounting (\<^verbatim>\<open>5_analyze_prompts.py\<close>)\<close>

text \<open>
  The tokenizer \<open>enc\<close> is the external library object built once by
  \<^verbatim>\<open>build_tokenizer\<close>; the model takes its \<^verbatim>\<open>encode\<close> method as a parameter, a
  function from a text to its list of token ids. The function is taken as total: a run
  in which \<^verbatim>\<open>encode\<close> raises ends in \<^verbatim>\<open>add_token_columns\<close> before any row is
  analysed. A cell of the \<^verbatim>\<open>prompt\<close> column is a
  string or not (pandas reads an empty or missing field as NaN): \<open>None\<close> is the cell
  that is not a string.
\<close>

type_synonym encoder = "str \<Rightarrow> nat list"

definition count_tokens :: "encoder \<Rightarrow> str option \<Rightarrow> nat" where
  "count_tokens enc text =
     (case text of None \<Rightarrow> 0 | Some t \<Rightarrow> length (enc t))"

text \<open>
  The \<^verbatim>\<open>for m in matches\<close> loop of \<^verbatim>\<open>analyze_tool_calls\<close>, with its two variables
  as the state.
\<close>

fun tool_loop :: "encoder \<Rightarrow> str list \<Rightarrow> nat \<times> str option \<Rightarrow> nat \<times> str option" where
  "tool_loop enc [] (total_tool_tokens, tool_type) = (total_tool_tokens, tool_type)"
| "tool_loop enc (m # matches) (total_tool_tokens, tool_type) =
     (let inner = strip m in
      if startswith inner (lit ''<str-replace>'')
      then tool_loop enc matches (total_tool_tokens, tool_type)
      else (case INNER_TAG_search inner of
              None \<Rightarrow> tool_loop enc matches (total_tool_tokens, tool_type)
            | Some tag \<Rightarrow>
                tool_loop enc matches
                  (total_tool_tokens + length (enc inner),
                   (if tool_type = None then Some tag else tool_type))))"

definition analyze_tool_calls :: "encoder \<Rightarrow> str option \<Rightarrow> nat \<times> str option" where
  "analyze_tool_calls enc prompt =
     (case prompt of
        None \<Rightarrow> (0, None)
      | Some p \<Rightarrow> tool_loop enc (TOOL_RESULT_findall p) (0, None))"

subsection \<open>The data frame\<close>

text \<open>
  A row of the data frame \<^verbatim>\<open>pd.read_csv\<close> returns, and a row after
  \<^verbatim>\<open>add_token_columns\<close>. The \<^verbatim>\<open>file_path\<close> and \<^verbatim>\<open>role\<close> cells are strings; a
  \<^verbatim>\<open>prompt\<close> cell is a string, or NaN when the field of the CSV is empty or one of the
  texts pandas reads as missing (such as \<^verbatim>\<open>NA\<close>, \<^verbatim>\<open>null\<close>, \<^verbatim>\<open>None\<close>, \<^verbatim>\<open>nan\<close>).
  The data frame is the list of its rows in index order.
\<close>

record prompt_row =
  file_path :: str
  prompt :: "str option"
  role :: str

record enriched_row = prompt_row +
  num_token :: nat
  num_token_from_toolcall :: nat
  tool_type :: "str option"

definition add_token_columns :: "encoder \<Rightarrow> prompt_row list \<Rightarrow> enriched_row list" where
  "add_token_columns enc df =
     map (\<lambda>r. case analyze_tool_calls enc (prompt r) of
                 (tok, tool) \<Rightarrow>
                   \<lparr>file_path = file_path r, prompt = prompt r, role = role r,
                    num_token = count_tokens enc (prompt r),
                    num_token_from_toolcall = tok, tool_type = tool\<rparr>) df"

subsection \<open>Percentages\<close>

text \<open>
  The result of a floating-point division of two column sums. The sums are
  non-negative integers; a finite quotient is kept as the exact rational number, and
  the two special results of a division by zero are values of their own: \<open>NaN\<close> for
  \<open>0 / 0\<close> and \<open>Inf\<close> for \<open>n / 0\<close> with \<open>n > 0\<close>, as pandas computes them.
\<close>

datatype float64 = Finite rat | Inf | NaN

definition series_div :: "nat \<Rightarrow> nat \<Rightarrow> float64" where
  "series_div a b =
     (if b = 0 then (if a = 0 then NaN else Inf) else Finite (of_nat a / of_nat b))"

fun times :: "float64 \<Rightarrow> rat \<Rightarrow> float64" where
  "times (Finite q) c = Finite (q * c)"
| "times Inf c = Inf"
| "times NaN c = NaN"

text \<open>The percentage \<^verbatim>\<open>pct_tool\<close> that \<^verbatim>\<open>overall_stats\<close> prints.\<close>

definition overall_stats :: "enriched_row list \<Rightarrow> float64" where
  "overall_stats df =
     (let total_token = sum_list (map num_token df);
          tool_token = sum_list (map num_token_from_toolcall df)
      in if total_token > 0 then Finite (of_nat tool_token / of_nat total_token * 100)
         else Finite 0)"

text \<open>
  \<^verbatim>\<open>df.groupby("file_path")\<close>: the group keys in sorted order, and the sum of a
  column over the rows of one group.
\<close>

definition group_keys :: "enriched_row list \<Rightarrow> str list" where
  "group_keys df = sort (remdups (map file_path df))"

definition group_sum :: "(enriched_row \<Rightarrow> nat) \<Rightarrow> enriched_row list \<Rightarrow> str \<Rightarrow> nat" where
  "group_sum col df key = sum_list (map col (filter (\<lambda>r. file_path r = key) df))"

text \<open>
  The series \<^verbatim>\<open>file_tool_pct\<close> of \<^verbatim>\<open>analyze_by_file_path\<close>, one entry per group.
  (\<^verbatim>\<open>sort_values\<close> then reorders the entries; the counts below do not depend on their
  order.)
\<close>

definition file_tool_pct :: "enriched_row list \<Rightarrow> (str \<times> float64) list" where
  "file_tool_pct df =
     map (\<lambda>key. (key, times (series_div (group_sum num_token_from_toolcall df key)
                                        (group_sum num_token df key)) 100))
       (group_keys df)"

text \<open>
  \<^verbatim>\<open>pd.cut(x, bins=bins, labels=labels, right=True)\<close>: the index of the label of the
  interval \<open>(lo, hi]\<close> of consecutive bin edges that holds the value; no label (NaN) for
  a value in no interval, and for NaN.
\<close>

definition bins :: "rat list" where
  "bins = [0, 20, 40, 60, 80, 100]"

text \<open>The labels; the dash of the source is the en dash U+2013, code point 8211.\<close>

definition labels :: "str list" where
  "labels =
     [lit ''0'' @ [8211] @ lit ''20%'', lit ''20'' @ [8211] @ lit ''40%'',
      lit ''40'' @ [8211] @ lit ''60%'', lit ''60'' @ [8211] @ lit ''80%'',
      lit ''80'' @ [8211] @ lit ''100%'']"

fun cut_finite :: "rat list \<Rightarrow> rat \<Rightarrow> nat option" where
  "cut_finite (lo # hi # edges) q =
     (if lo < q \<and> q \<le> hi then Some 0 else map_option Suc (cut_finite (hi # edges) q))"
| "cut_finite edges q = None"

fun cut :: "rat list \<Rightarrow> float64 \<Rightarrow> nat option" where
  "cut edges (Finite q) = cut_finite edges q"
| "cut edges Inf = None"
| "cut edges NaN = None"

text \<open>
  \<^verbatim>\<open>range_counts\<close>: \<^verbatim>\<open>value_counts().sort_index()\<close> of the categorical column, the
  number of groups of each label in the order of the labels; a group with no label is
  counted nowhere.
\<close>

definition range_counts :: "enriched_row list \<Rightarrow> nat list" where
  "range_counts df =
     map (\<lambda>i. length (filter (\<lambda>(key, pct). cut bins pct = Some i) (file_tool_pct df)))
       [0..<length labels]"

subsection \<open>Dominant tool type\<close>

text \<open>
  \<^verbatim>\<open>tool_type_by_file\<close>: the rows with a \<^verbatim>\<open>tool_type\<close>, grouped by
  \<^verbatim>\<open>(file_path, tool_type)\<close>, with the sum of \<^verbatim>\<open>num_token_from_toolcall\<close> of each
  group; the groups are in the sorted order of their keys.
\<close>

definition typed_rows :: "enriched_row list \<Rightarrow> ((str \<times> str) \<times> nat) list" where
  "typed_rows df =
     concat (map (\<lambda>r. case tool_type r of
                         None \<Rightarrow> []
                       | Some tp \<Rightarrow> [((file_path r, tp), num_token_from_toolcall r)]) df)"

definition tool_type_by_file :: "enriched_row list \<Rightarrow> ((str \<times> str) \<times> nat) list" where
  "tool_type_by_file df =
     map (\<lambda>key. (key, sum_list (map snd (filter (\<lambda>(k, n). k = key) (typed_rows df)))))
       (sort (remdups (map fst (typed_rows df))))"

text \<open>
  \<^verbatim>\<open>idxmax\<close> of a series: the label of the first occurrence of the maximum. The scan
  keeps the best entry so far and replaces it only by a strictly larger one.
\<close>

fun first_max :: "'k \<times> nat \<Rightarrow> ('k \<times> nat) list \<Rightarrow> 'k \<times> nat" where
  "first_max best [] = best"
| "first_max best (x # xs) = first_max (if snd best < snd x then x else best) xs"

fun idxmax :: "('k \<times> nat) list \<Rightarrow> 'k option" where
  "idxmax [] = None"
| "idxmax (x # xs) = Some (fst (first_max x xs))"

text \<open>
  \<^verbatim>\<open>dominant_tool_type = tool_type_by_file.groupby("file_path").idxmax()\<close>: for each
  file path, in sorted order, the label \<^verbatim>\<open>(file_path, tool_type)\<close> that \<^verbatim>\<open>idxmax\<close>
  picks among the entries of that file path. \<^verbatim>\<open>dominant_tool_type_df\<close> has the first
  component of each label as its index and the second as its column.
\<close>

definition dominant_tool_type :: "enriched_row list \<Rightarrow> (str \<times> str) list" where
  "dominant_tool_type df =
     concat (map (\<lambda>fp. case idxmax (filter (\<lambda>((f, tp), n). f = fp) (tool_type_by_file df)) of
                          None \<Rightarrow> []
                        | Some label \<Rightarrow> [label])
               (sort (remdups (map (\<lambda>((f, tp), n). f) (tool_type_by_file df)))))"

definition dominant_tool_type_df :: "enriched_row list \<Rightarrow> (str \<times> str) list" where
  "dominant_tool_type_df df = map (\<lambda>(fp, tp). (fp, tp)) (dominant_tool_type df)"

text \<open>
  The summed \<open>tool_tokens\<close> of one tool type over one conversation, as the specification
  words it.
\<close>

definition conv_type_tokens :: "enriched_row list \<Rightarrow> str \<Rightarrow> str \<Rightarrow> nat" where
  "conv_type_tokens df fp tp =
     sum_list (map num_token_from_toolcall
       (filter (\<lambda>r. file_path r = fp \<and> tool_type r = Some tp) df))"

subsection \<open>Tool-type statistics\<close>

text \<open>
  The tallies of \<^verbatim>\<open>tool_type_stats\<close> over the rows with a \<^verbatim>\<open>tool_type\<close>:
  \<^verbatim>\<open>tool_type_counts\<close>, the number of rows of each type; \<^verbatim>\<open>tool_type_pct\<close>, its
  share of all such rows in percent; \<^verbatim>\<open>avg_token_by_type\<close>, the mean of
  \<^verbatim>\<open>num_token_from_toolcall\<close> over the rows of each type. Each has one entry per
  type, here in the sorted order of the types (\<^verbatim>\<open>value_counts\<close> and \<^verbatim>\<open>sort_values\<close>
  then reorder the entries by their values for the display).
\<close>

definition tool_types :: "enriched_row list \<Rightarrow> str list" where
  "tool_types df =
     sort (remdups (concat (map (\<lambda>r. case tool_type r of None \<Rightarrow> [] | Some tp \<Rightarrow> [tp]) df)))"

definition tool_type_counts :: "enriched_row list \<Rightarrow> (str \<times> nat) list" where
  "tool_type_counts df =
     map (\<lambda>tp. (tp, length (filter (\<lambda>r. tool_type r = Some tp) df))) (tool_types df)"

definition tool_type_pct :: "enriched_row list \<Rightarrow> (str \<times> float64) list" where
  "tool_type_pct df =
     map (\<lambda>(tp, n). (tp, times (series_div n (sum_list (map snd (tool_type_counts df)))) 100))
       (tool_type_counts df)"

definition avg_token_by_type :: "enriched_row list \<Rightarrow> (str \<times> float64) list" where
  "avg_token_by_type df =
     map (\<lambda>tp. (tp, series_div
            (sum_list (map num_token_from_toolcall (filter (\<lambda>r. tool_type r = Some tp) df)))
            (length (filter (\<lambda>r. tool_type r = Some tp) df))))
       (tool_types df)"

text \<open>
  Two rows agree on the columns that the tool tallies read: \<^verbatim>\<open>file_path\<close>,
  \<^verbatim>\<open>num_token_from_toolcall\<close> and \<^verbatim>\<open>tool_type\<close>.
\<close>

definition same_tool_columns :: "enriched_row \<Rightarrow> enriched_row \<Rightarrow> bool" where
  "same_tool_columns a b =
     (file_path a = file_path b \<and> num_token_from_toolcall a = num_token_from_toolcall b \<and>
      tool_type a = tool_type b)"

text \<open>
  A sample tokenizer for the concrete evaluations below: one token per code point. The
  library tokenizer is not part of the repository; the general theorems hold for every
  \<open>enc\<close>.
\<close>

definition sample_enc :: encoder where
  "sample_enc s = s"

subsection \<open>The parser and the enrichment as the specification words them\<close>

text \<open>
  Section 4.3 of the specification: every block that is not excluded is returned, with
  its trimmed text and its inner tag (absent when it has none), in the order of the text.
\<close>

definition spec_parse_tool_blocks :: "str \<Rightarrow> (str \<times> str option) list" where
  "spec_parse_tool_blocks text =
     map (\<lambda>inner. (inner, INNER_TAG_search inner))
       (filter (\<lambda>inner. \<not> startswith inner (lit ''<str-replace>''))
          (map strip (TOOL_RESULT_findall text)))"

text \<open>
  Section 4.4: \<open>tool_type\<close> is the inner tag of the first returned block that has a tag,
  and \<open>tool_tokens\<close> is the sum of the token counts of all returned blocks.
\<close>

definition spec_tool_type :: "str \<Rightarrow> str option" where
  "spec_tool_type text =
     (case find (\<lambda>(raw_text, inner_tag). inner_tag \<noteq> None) (spec_parse_tool_blocks text) of
        None \<Rightarrow> None
      | Some (raw_text, inner_tag) \<Rightarrow> inner_tag)"

definition spec_tool_tokens :: "encoder \<Rightarrow> str \<Rightarrow> nat" where
  "spec_tool_tokens enc text =
     sum_list (map (\<lambda>(raw_text, inner_tag). length (enc raw_text)) (spec_parse_tool_blocks text))"

text \<open>
  The percentages that fall into one of the five intervals, that is, into \<open>(0, 100]\<close>.
\<close>

fun in_some_bucket :: "float64 \<Rightarrow> bool" where
  "in_some_bucket (Finite q) = (0 < q \<and> q \<le> 100)"
| "in_some_bucket Inf = False"
| "in_some_bucket NaN = False"

subsection \<open>Sample inputs for the concrete evaluations\<close>

text \<open>
  A decoded file with one user message, and an enriched data frame of two
  conversations (its token columns are those of the sample tokenizer): in
  \<^verbatim>\<open>b.json\<close> the types \<^verbatim>\<open>ls\<close> and \<^verbatim>\<open>cat\<close> have six tool tokens each, and the row
  of \<^verbatim>\<open>ls\<close> comes first.
\<close>

definition sample_file :: json where
  "sample_file =
     JObj [(lit ''request'', JObj [(lit ''messages'', JArr
       [JObj [(lit ''role'', JStr (lit ''user'')), (lit ''content'', JStr (lit '' fix bug ''))]])])]"

definition sample_prompts :: "prompt_row list" where
  "sample_prompts =
     [\<lparr>file_path = lit ''b.json'', prompt = Some (lit ''<tool_result><ls>xy</tool_result>''),
       role = lit ''assistant''\<rparr>,
      \<lparr>file_path = lit ''b.json'', prompt = Some (lit ''<tool_result><cat>y</tool_result>''),
       role = lit ''assistant''\<rparr>,
      \<lparr>file_path = lit ''a.json'', prompt = Some (lit ''hello''), role = lit ''user''\<rparr>]"

definition sample_row :: enriched_row where
  "sample_row =
     \<lparr>file_path = lit ''b.json'', prompt = Some (lit ''<tool_result><ls>xy</tool_result>''),
      role = lit ''assistant'', num_token = 33, num_token_from_toolcall = 6,
      tool_type = Some (lit ''ls'')\<rparr>"

definition sample_df :: "enriched_row list" where
  "sample_df =
     [sample_row,
      \<lparr>file_path = lit ''b.json'', prompt = Some (lit ''<tool_result><cat>y</tool_result>''),
       role = lit ''assistant'', num_token = 33, num_token_from_toolcall = 6,
       tool_type = Some (lit ''cat'')\<rparr>,
      \<lparr>file_path = lit ''a.json'', prompt = Some (lit ''hello''), role = lit ''user'',
       num_token = 5, num_token_from_toolcall = 0, tool_type = None\<rparr>]"

text \<open>
  Two texts with the same tagged block of nine characters; the first has an excluded
  block after it.
\<close>

definition text_with_excluded :: str where
  "text_with_excluded =
     lit ''<tool_result><a>xyzuvw</tool_result><tool_result><str-replace>yy</tool_result>''"

definition text_without_excluded :: str where
  "text_without_excluded = lit ''<tool_result><a>xyzuvw</tool_result>''"

section \<open>Properties of the tool-call analysis\<close>

text \<open>The equations that evaluate the analysis of a concrete text.\<close>

lemmas eval_text =
  lit_def TOOL_RESULT_match_def BEGIN_MARK_def END_MARK_def is_tag_char_def isspace_def
  strip_def startswith_def analyze_tool_calls_def spec_tool_type_def spec_tool_tokens_def
  spec_parse_tool_blocks_def sample_enc_def Let_def sublist_Cons_right

lemma tool_loop_append:
  "tool_loop enc (xs @ ys) st = tool_loop enc ys (tool_loop enc xs st)"
  by (induction enc xs st rule: tool_loop.induct) (auto simp: Let_def split: option.splits)

lemma tool_loop_skip_excluded:
  "startswith (strip m) (lit ''<str-replace>'') \<Longrightarrow> tool_loop enc (m # ms) st = tool_loop enc ms st"
  by (cases st) simp

lemma tool_loop_skip_untagged:
  "INNER_TAG_search (strip m) = None \<Longrightarrow> tool_loop enc (m # ms) st = tool_loop enc ms st"
  by (cases st) (simp add: Let_def)

lemma tool_loop_type_kept: "snd (tool_loop enc ms (n, Some t)) = Some t"
  by (induction ms arbitrary: n) (auto simp: Let_def split: option.splits)

lemma tool_loop_first_tag:
  "snd (tool_loop enc ms (n, None)) =
     (case find (\<lambda>(raw_text, inner_tag). inner_tag \<noteq> None)
             (map (\<lambda>inner. (inner, INNER_TAG_search inner))
                (filter (\<lambda>inner. \<not> startswith inner (lit ''<str-replace>'')) (map strip ms))) of
        None \<Rightarrow> None
      | Some (raw_text, inner_tag) \<Rightarrow> inner_tag)"
proof (induction ms arbitrary: n)
  case Nil
  show ?case by simp
next
  case (Cons m ms)
  show ?case
  proof (cases "startswith (strip m) (lit ''<str-replace>'')")
    case True
    then show ?thesis using Cons.IH [of n] by simp
  next
    case False
    show ?thesis
    proof (cases "INNER_TAG_search (strip m)")
      case None
      with False show ?thesis using Cons.IH [of n] by (simp add: Let_def)
    next
      case (Some tag)
      with False show ?thesis by (simp add: Let_def tool_loop_type_kept)
    qed
  qed
qed

lemma tool_loop_untyped_adds_nothing:
  "snd (tool_loop enc ms (n, ty)) = None \<Longrightarrow> fst (tool_loop enc ms (n, ty)) = n"
proof (induction ms arbitrary: n ty)
  case Nil
  show ?case by simp
next
  case (Cons m ms)
  show ?case
  proof (cases "startswith (strip m) (lit ''<str-replace>'')")
    case True
    with Cons show ?thesis by simp
  next
    case False
    show ?thesis
    proof (cases "INNER_TAG_search (strip m)")
      case None
      with False Cons show ?thesis by (simp add: Let_def)
    next
      case (Some tag)
      have "snd (tool_loop enc (m # ms) (n, ty)) \<noteq> None"
        using False Some by (cases ty) (simp_all add: Let_def tool_loop_type_kept)
      with Cons.prems show ?thesis by simp
    qed
  qed
qed

lemma findall_without_begin:
  "\<not> sublist BEGIN_MARK s \<Longrightarrow> TOOL_RESULT_findall s = []"
proof (induction s)
  case Nil
  show ?case by simp
next
  case (Cons c cs)
  from Cons.prems have np: "\<not> prefix BEGIN_MARK (c # cs)" and ns: "\<not> sublist BEGIN_MARK cs"
    by (auto simp: sublist_Cons_right)
  from np have "TOOL_RESULT_match (c # cs) = None" by (simp add: TOOL_RESULT_match_def)
  with Cons.IH [OF ns] show ?case by simp
qed

text \<open>
  C5. The \<open>tool_type\<close> of a row is the inner tag of the first block, in the order of
  the text, that is not excluded and has an inner tag, and is absent when there is no
  such block; a row whose text contains no begin marker has \<open>tool_tokens = 0\<close> and an
  absent \<open>tool_type\<close>.
\<close>

theorem tool_type_is_first_tagged_block:
  "snd (analyze_tool_calls enc (Some text)) = spec_tool_type text \<and>
   (\<not> sublist BEGIN_MARK text \<longrightarrow> analyze_tool_calls enc (Some text) = (0, None))"
  by (simp add: analyze_tool_calls_def spec_tool_type_def spec_parse_tool_blocks_def
      tool_loop_first_tag findall_without_begin)

theorem tool_type_is_first_tagged_block_witness:
  "\<not> sublist BEGIN_MARK (lit ''fix the bug'') \<and>
   analyze_tool_calls sample_enc (Some (lit ''fix the bug'')) = (0, None) \<and>
   snd (analyze_tool_calls sample_enc
     (Some (lit ''<tool_result>plain</tool_result><tool_result> <ls>a <cat>b</tool_result>''))) =
   spec_tool_type (lit ''<tool_result>plain</tool_result><tool_result> <ls>a <cat>b</tool_result>'') \<and>
   spec_tool_type (lit ''<tool_result>plain</tool_result><tool_result> <ls>a <cat>b</tool_result>'') =
   Some (lit ''ls'')"
proof -
  have no_marker: "\<not> sublist BEGIN_MARK (lit ''fix the bug'')"
    by (simp add: eval_text)
  have tagged: "spec_tool_type
      (lit ''<tool_result>plain</tool_result><tool_result> <ls>a <cat>b</tool_result>'') =
      Some (lit ''ls'')"
    by (simp add: eval_text)
  show ?thesis
    using no_marker tagged
      tool_type_is_first_tagged_block [of sample_enc "lit ''fix the bug''"]
      tool_type_is_first_tagged_block [of sample_enc
        "lit ''<tool_result>plain</tool_result><tool_result> <ls>a <cat>b</tool_result>''"]
    by simp
qed

text \<open>
  C10. A row whose \<open>tool_type\<close> is absent has \<open>tool_tokens = 0\<close>; equivalently, a row
  with positive \<open>tool_tokens\<close> has a \<open>tool_type\<close>. The cell is any cell of the \<^verbatim>\<open>prompt\<close> column,
  a string or not.
\<close>

theorem absent_tool_type_zero_tokens:
  "snd (analyze_tool_calls enc cell) = None \<Longrightarrow> fst (analyze_tool_calls enc cell) = 0"
proof (cases cell)
  case None
  then show ?thesis by (simp add: analyze_tool_calls_def)
next
  case (Some p)
  assume "snd (analyze_tool_calls enc cell) = None"
  with Some show ?thesis
    using tool_loop_untyped_adds_nothing [of enc "TOOL_RESULT_findall p" 0 None]
    by (simp add: analyze_tool_calls_def)
qed

theorem absent_tool_type_zero_tokens_witness:
  "snd (analyze_tool_calls sample_enc
     (Some (lit ''<tool_result>no tag here</tool_result> and text''))) = None \<and>
   fst (analyze_tool_calls sample_enc
     (Some (lit ''<tool_result>no tag here</tool_result> and text''))) = 0"
proof -
  have absent: "snd (analyze_tool_calls sample_enc
     (Some (lit ''<tool_result>no tag here</tool_result> and text''))) = None"
    by (simp add: eval_text)
  from absent_tool_type_zero_tokens [OF absent] absent show ?thesis by simp
qed

lemma excluded_block_row:
  assumes "TOOL_RESULT_findall s = before @ m # after"
    and "startswith (strip m) (lit ''<str-replace>'')"
  shows "analyze_tool_calls enc (Some s) = tool_loop enc (before @ after) (0, None)"
  using assms
  by (simp add: analyze_tool_calls_def tool_loop_append tool_loop_skip_excluded)

text \<open>
  C1, as the specification states it, fails: a block that is not excluded and has no
  inner tag is not counted. The text below has one such block, of three tokens under
  the sample tokenizer (and of at least one token under any tokenizer that gives a
  non-empty text a token); the specification's sum over the returned blocks is 3, the
  row's \<open>tool_tokens\<close> is 0.
\<close>

theorem untagged_block_counterexample:
  "spec_parse_tool_blocks (lit ''<tool_result>abc</tool_result>'') = [(lit ''abc'', None)] \<and>
   spec_tool_tokens sample_enc (lit ''<tool_result>abc</tool_result>'') = 3 \<and>
   fst (analyze_tool_calls sample_enc (Some (lit ''<tool_result>abc</tool_result>''))) = 0"
  by (simp add: eval_text)

text \<open>
  C1, amended. A block that is not excluded and has no inner tag is skipped by the
  guard \<^verbatim>\<open>if not tag_match: continue\<close>: the \<open>tool_tokens\<close> and the \<open>tool_type\<close> of
  the row are those the loop computes from the other blocks alone.
\<close>

theorem untagged_block_contributes_nothing:
  assumes "TOOL_RESULT_findall text = before @ m # after"
    and "\<not> startswith (strip m) (lit ''<str-replace>'')"
    and "INNER_TAG_search (strip m) = None"
  shows "analyze_tool_calls enc (Some text) = tool_loop enc (before @ after) (0, None)"
  using assms
  by (simp add: analyze_tool_calls_def tool_loop_append tool_loop_skip_untagged)

theorem untagged_block_contributes_nothing_witness:
  "TOOL_RESULT_findall (lit ''<tool_result><a>x</tool_result>..<tool_result>abc</tool_result>'') =
     [lit ''<a>x''] @ lit ''abc'' # [] \<and>
   \<not> startswith (strip (lit ''abc'')) (lit ''<str-replace>'') \<and>
   INNER_TAG_search (strip (lit ''abc'')) = None \<and>
   analyze_tool_calls sample_enc
     (Some (lit ''<tool_result><a>x</tool_result>..<tool_result>abc</tool_result>'')) =
     tool_loop sample_enc ([lit ''<a>x''] @ []) (0, None) \<and>
   tool_loop sample_enc ([lit ''<a>x''] @ []) (0, None) = (4, Some (lit ''a''))"
proof -
  have blocks: "TOOL_RESULT_findall
     (lit ''<tool_result><a>x</tool_result>..<tool_result>abc</tool_result>'') =
     [lit ''<a>x''] @ lit ''abc'' # []"
    by (simp add: eval_text)
  have not_excl: "\<not> startswith (strip (lit ''abc'')) (lit ''<str-replace>'')"
    by (simp add: eval_text)
  have no_tag: "INNER_TAG_search (strip (lit ''abc'')) = None"
    by (simp add: eval_text)
  have rest: "tool_loop sample_enc ([lit ''<a>x''] @ []) (0, None) = (4, Some (lit ''a''))"
    by (simp add: eval_text)
  from untagged_block_contributes_nothing [OF blocks not_excl no_tag, of sample_enc]
    blocks not_excl no_tag rest
  show ?thesis by simp
qed

section \<open>Properties of the extraction\<close>

lemmas eval_json =
  lit_def isspace_def strip_def extract_message_def extract_prompts_from_file_def main_def
  sample_file_def Let_def

lemma load_failure_gives_no_rows: "extract_prompts_from_file fp None = Inr []"
  by (simp add: extract_prompts_from_file_def)

lemma top_level_not_object:
  assumes "\<And>d. data \<noteq> JObj d"
  shows "extract_prompts_from_file fp (Some data) = Inl AttributeError"
proof (cases data)
  case (JObj d)
  with assms show ?thesis by blast
qed (simp_all add: extract_prompts_from_file_def)

lemma failed_file_ends_collection:
  "extract_prompts_from_file fp loaded = Inl e \<Longrightarrow>
   collect_results ((fp, loaded) # futures) all_rows = Inl e"
  by simp

text \<open>
  C2. The file below decodes to an empty JSON array, a well-formed JSON text whose
  top level is not an object. \<^verbatim>\<open>data.get\<close> raises \<^verbatim>\<open>AttributeError\<close> outside every
  \<^verbatim>\<open>try\<close>, the exception leaves \<^verbatim>\<open>extract_prompts_from_file\<close>, and \<^verbatim>\<open>main\<close> ends
  with it: the row of the second, well-formed file is lost, although that file alone
  yields it. A file that does not load at all is skipped as the claim says.
\<close>

theorem top_level_array_aborts_run:
  "extract_prompts_from_file (lit ''a_chat_completion.json'') (Some (JArr [])) =
     Inl AttributeError \<and>
   main [(lit ''a_chat_completion.json'', Some (JArr [])),
         (lit ''b_chat_completion.json'', Some sample_file)] = Inl AttributeError \<and>
   main [(lit ''a_chat_completion.json'', None),
         (lit ''b_chat_completion.json'', Some sample_file)] =
     Inr [(lit ''b_chat_completion.json'', lit ''fix bug'', lit ''user'')]"
  by (simp add: eval_json)

text \<open>
  C7, as the specification states it, fails: for a string of whitespace only,
  \<^verbatim>\<open>normalize_content\<close> returns the empty string, not \<^verbatim>\<open>None\<close>.
\<close>

theorem normalize_blank_counterexample:
  "strip (lit ''   '') = [] \<and> normalize_content (JStr (lit ''   '')) = Some [] \<and>
   normalize_content (JStr (lit ''   '')) \<noteq> None"
  by (simp add: eval_json)

lemma blank_or_row:
  assumes "map_of d (lit ''role'') = Some (JStr r)"
    and "r = lit ''user'' \<or> r = lit ''assistant''"
    and "map_of d (lit ''content'') = Some (JStr content)"
  shows "extract_message fp (JObj d) =
     Inr (if strip content = [] then [] else [(fp, strip content, r)])"
  using assms by (auto simp: extract_message_def)

text \<open>
  C7, amended. For a string, \<^verbatim>\<open>normalize_content\<close> returns exactly the trimmed
  string, also when that is the empty string; it raises nothing. The message loop
  treats the empty string as no text: for every message of role \<^verbatim>\<open>user\<close> or
  \<^verbatim>\<open>assistant\<close> whose content is a string, whatever its other keys and wherever it
  stands in the list, the loop adds no row when the trimmed content is empty, and the
  row of the trimmed content otherwise.
\<close>

theorem normalize_string_is_trimmed:
  assumes "map_of d (lit ''role'') = Some (JStr r)"
    and "r = lit ''user'' \<or> r = lit ''assistant''"
    and "map_of d (lit ''content'') = Some (JStr content)"
  shows "normalize_content (JStr content) = Some (strip content) \<and>
     message_loop fp (JObj d # msgs) results =
       message_loop fp msgs
         (if strip content = [] then results else results @ [(fp, strip content, r)])"
  using blank_or_row [OF assms, of fp] by simp

theorem normalize_string_is_trimmed_witness:
  "map_of [(lit ''name'', JStr (lit ''bot'')), (lit ''role'', JStr (lit ''assistant'')),
           (lit ''content'', JStr (lit ''   ''))] (lit ''role'') = Some (JStr (lit ''assistant'')) \<and>
   (lit ''assistant'' = lit ''user'' \<or> lit ''assistant'' = lit ''assistant'') \<and>
   map_of [(lit ''name'', JStr (lit ''bot'')), (lit ''role'', JStr (lit ''assistant'')),
           (lit ''content'', JStr (lit ''   ''))] (lit ''content'') = Some (JStr (lit ''   '')) \<and>
   normalize_content (JStr (lit ''   '')) = Some (strip (lit ''   '')) \<and>
   strip (lit ''   '') = [] \<and>
   message_loop (lit ''a.json'')
     (JObj [(lit ''name'', JStr (lit ''bot'')), (lit ''role'', JStr (lit ''assistant'')),
            (lit ''content'', JStr (lit ''   ''))] # []) [] = []"
proof -
  have role: "map_of [(lit ''name'', JStr (lit ''bot'')), (lit ''role'', JStr (lit ''assistant'')),
           (lit ''content'', JStr (lit ''   ''))] (lit ''role'') = Some (JStr (lit ''assistant''))"
    by (simp add: lit_def)
  have kept: "lit ''assistant'' = lit ''user'' \<or> lit ''assistant'' = lit ''assistant''"
    by simp
  have content: "map_of [(lit ''name'', JStr (lit ''bot'')), (lit ''role'', JStr (lit ''assistant'')),
           (lit ''content'', JStr (lit ''   ''))] (lit ''content'') = Some (JStr (lit ''   ''))"
    by (simp add: lit_def)
  have blank: "strip (lit ''   '') = []"
    by (simp add: lit_def strip_def isspace_def)
  from normalize_string_is_trimmed [OF role kept content, of "lit ''a.json''" "[]" "[]"]
    role kept content blank
  show ?thesis by simp
qed

section \<open>Properties of the percentages\<close>

lemma overall_stats_formula:
  "overall_stats df =
     Finite (if sum_list (map num_token df) = 0 then 0
             else of_nat (sum_list (map num_token_from_toolcall df)) /
                  of_nat (sum_list (map num_token df)) * 100)"
  by (simp add: overall_stats_def Let_def)

lemma file_tool_pct_formula:
  "file_tool_pct df =
     map (\<lambda>key. (key,
            if group_sum num_token df key = 0
            then (if group_sum num_token_from_toolcall df key = 0 then NaN else Inf)
            else Finite (of_nat (group_sum num_token_from_toolcall df key) /
                         of_nat (group_sum num_token df key) * 100)))
       (group_keys df)"
  by (simp add: file_tool_pct_def series_div_def)

text \<open>
  C3. The data frame below is what \<^verbatim>\<open>pd.read_csv\<close> returns for a CSV whose only row
  has a prompt that pandas reads as missing (for instance the text \<^verbatim>\<open>NA\<close>): the cell
  is NaN, \<^verbatim>\<open>count_tokens\<close> gives 0 for it under every tokenizer, and both sums of the
  conversation are 0. The global percentage is 0 by the guard of \<^verbatim>\<open>overall_stats\<close>;
  the percentage of the conversation is NaN, since \<^verbatim>\<open>file_tool_pct\<close> divides without
  a guard.
\<close>

theorem per_conversation_pct_zero_denominator:
  "overall_stats (add_token_columns enc
     [\<lparr>file_path = lit ''a_chat_completion.json'', prompt = None, role = lit ''user''\<rparr>]) =
     Finite 0 \<and>
   file_tool_pct (add_token_columns enc
     [\<lparr>file_path = lit ''a_chat_completion.json'', prompt = None, role = lit ''user''\<rparr>]) =
     [(lit ''a_chat_completion.json'', NaN)]"
  by (simp add: add_token_columns_def analyze_tool_calls_def count_tokens_def overall_stats_def
      file_tool_pct_def group_keys_def group_sum_def series_div_def)

lemma label_indices: "[0..<length labels] = [0, 1, 2, 3, 4]"
  by (simp add: labels_def upt_conv_Cons)

lemma cut_bins_bucket:
  "(if cut bins pct = Some 0 then 1 else 0) + (if cut bins pct = Some 1 then 1 else 0) +
   (if cut bins pct = Some 2 then 1 else 0) + (if cut bins pct = Some 3 then 1 else 0) +
   (if cut bins pct = Some 4 then 1 else (0::nat)) = (if in_some_bucket pct then 1 else 0)"
  by (cases pct) (auto simp: bins_def)

lemma bucket_counts_sum:
  "sum_list (map (\<lambda>i. length (filter (\<lambda>(key, pct). cut bins pct = Some i) ps))
     [0..<length labels]) =
   length (filter (\<lambda>(key, pct). in_some_bucket pct) ps)"
proof (induction ps)
  case Nil
  show ?case by (simp add: label_indices)
next
  case (Cons p ps)
  obtain key pct where p: "p = (key, pct)" by (cases p)
  define a where "a i = (if cut bins pct = Some i then 1 else (0::nat))" for i
  define b where "b = (if in_some_bucket pct then 1 else (0::nat))"
  define c where "c i = length (filter (\<lambda>(key, pct). cut bins pct = Some i) ps)" for i
  define d where "d = length (filter (\<lambda>(key, pct). in_some_bucket pct) ps)"
  have step: "length (filter (\<lambda>(key, pct). cut bins pct = Some i) (p # ps)) = a i + c i" for i
    by (simp add: p a_def c_def)
  have stepd: "length (filter (\<lambda>(key, pct). in_some_bucket pct) (p # ps)) = b + d"
    by (simp add: p b_def d_def)
  have ab: "a 0 + a 1 + a 2 + a 3 + a 4 = b"
    unfolding a_def b_def by (rule cut_bins_bucket)
  have cd: "c 0 + c 1 + c 2 + c 3 + c 4 = d"
    using Cons.IH unfolding c_def d_def label_indices by simp
  have "sum_list (map (\<lambda>i. a i + c i) [0, 1, 2, 3, 4]) = b + d"
    using ab cd by simp
  then show ?case
    unfolding label_indices step stepd .
qed

text \<open>
  C4, as the specification states it, fails: a conversation without tool tokens has the
  percentage 0, which is defined (not NaN) and lies in none of the intervals, the first
  of which is open at 0. In the data frame of one such conversation the counts sum to
  0, while one conversation has a defined percentage.
\<close>

theorem zero_pct_in_no_bucket_counterexample:
  "file_tool_pct (add_token_columns sample_enc
     [\<lparr>file_path = lit ''a.json'', prompt = Some (lit ''hello''), role = lit ''user''\<rparr>]) =
     [(lit ''a.json'', Finite 0)] \<and>
   range_counts (add_token_columns sample_enc
     [\<lparr>file_path = lit ''a.json'', prompt = Some (lit ''hello''), role = lit ''user''\<rparr>]) =
     [0, 0, 0, 0, 0] \<and>
   sum_list (range_counts (add_token_columns sample_enc
     [\<lparr>file_path = lit ''a.json'', prompt = Some (lit ''hello''), role = lit ''user''\<rparr>])) \<noteq>
   length (filter (\<lambda>(key, pct). pct \<noteq> NaN) (file_tool_pct (add_token_columns sample_enc
     [\<lparr>file_path = lit ''a.json'', prompt = Some (lit ''hello''), role = lit ''user''\<rparr>])))"
  by (simp add: eval_text add_token_columns_def count_tokens_def range_counts_def
      file_tool_pct_def group_keys_def group_sum_def series_div_def bins_def label_indices)

text \<open>
  C4, amended. The bucket counts sum exactly to the number of conversations whose
  percentage lies in \<open>(0, 100]\<close>; a conversation whose percentage is 0, above 100,
  infinite or NaN is counted in no bucket.
\<close>

theorem bucket_counts_sum_to_conversations_in_range:
  "sum_list (range_counts df) =
   length (filter (\<lambda>(key, pct). in_some_bucket pct) (file_tool_pct df))"
  unfolding range_counts_def by (rule bucket_counts_sum)

section \<open>Properties of the dominant tool type\<close>

lemma first_max_split_gen:
  "\<forall>e \<in> set pre. snd e < snd b \<Longrightarrow> \<forall>e \<in> set mid. snd e \<le> snd b \<Longrightarrow>
   \<exists>before after. pre @ b # mid @ xs = before @ first_max b xs # after \<and>
     (\<forall>e \<in> set before. snd e < snd (first_max b xs)) \<and>
     (\<forall>e \<in> set after. snd e \<le> snd (first_max b xs))"
proof (induction xs arbitrary: pre b mid)
  case Nil
  then show ?case by auto
next
  case (Cons x xs)
  show ?case
  proof (cases "snd b < snd x")
    case True
    have "\<forall>e \<in> set (pre @ b # mid). snd e < snd x"
      using Cons.prems True by fastforce
    from Cons.IH [OF this, of "[]"] True show ?thesis by simp
  next
    case False
    have "\<forall>e \<in> set (mid @ [x]). snd e \<le> snd b"
      using Cons.prems False by auto
    from Cons.IH [OF Cons.prems(1) this] False show ?thesis by simp
  qed
qed

lemma idxmax_first_maximum:
  assumes "idxmax xs = Some k"
  shows "\<exists>v before after. xs = before @ (k, v) # after \<and>
     (\<forall>e \<in> set before. snd e < v) \<and> (\<forall>e \<in> set after. snd e \<le> v)"
proof (cases xs)
  case Nil
  with assms show ?thesis by simp
next
  case (Cons x xs')
  with assms have k: "k = fst (first_max x xs')" by simp
  from first_max_split_gen [of "[]" x "[]" xs']
  obtain before after where "x # xs' = before @ first_max x xs' # after"
    and "\<forall>e \<in> set before. snd e < snd (first_max x xs')"
    and "\<forall>e \<in> set after. snd e \<le> snd (first_max x xs')"
    by auto
  then show ?thesis
    unfolding Cons k by (intro exI [of _ "snd (first_max x xs')"] exI [of _ before] exI [of _ after]) simp
qed

lemma typed_rows_sum:
  "sum_list (map snd (filter (\<lambda>(k, n). k = (fp, tp)) (typed_rows df))) = conv_type_tokens df fp tp"
  by (induction df) (auto simp: typed_rows_def conv_type_tokens_def split: option.splits)

lemma typed_rows_mem:
  "((fp, tp), n) \<in> set (typed_rows df) \<longleftrightarrow>
   (\<exists>r \<in> set df. file_path r = fp \<and> tool_type r = Some tp \<and> num_token_from_toolcall r = n)"
  by (induction df) (auto simp: typed_rows_def split: option.splits)

lemma typed_rows_keys:
  "(fp, tp) \<in> fst ` set (typed_rows df) \<longleftrightarrow>
   (\<exists>r \<in> set df. file_path r = fp \<and> tool_type r = Some tp)"
proof
  assume "(fp, tp) \<in> fst ` set (typed_rows df)"
  then obtain n where "((fp, tp), n) \<in> set (typed_rows df)" by auto
  then show "\<exists>r \<in> set df. file_path r = fp \<and> tool_type r = Some tp"
    unfolding typed_rows_mem by blast
next
  assume "\<exists>r \<in> set df. file_path r = fp \<and> tool_type r = Some tp"
  then obtain r where "r \<in> set df" "file_path r = fp" "tool_type r = Some tp" by blast
  then have "((fp, tp), num_token_from_toolcall r) \<in> set (typed_rows df)"
    unfolding typed_rows_mem by blast
  then show "(fp, tp) \<in> fst ` set (typed_rows df)" by force
qed

lemma tool_type_by_file_entry:
  "(key, n) \<in> set (tool_type_by_file df) \<longleftrightarrow>
   key \<in> fst ` set (typed_rows df) \<and> n = conv_type_tokens df (fst key) (snd key)"
proof -
  have "sum_list (map snd (filter (\<lambda>(k, n). k = key) (typed_rows df))) =
        conv_type_tokens df (fst key) (snd key)"
    using typed_rows_sum [of "fst key" "snd key" df] by simp
  then show ?thesis
    by (auto simp: tool_type_by_file_def)
qed

lemma map_of_labels:
  assumes "fp \<in> set ks" and "h fp = Some (fp, tp)"
    and "\<And>k label. h k = Some label \<Longrightarrow> fst label = k"
  shows "map_of (concat (map (\<lambda>k. case h k of None \<Rightarrow> [] | Some label \<Rightarrow> [label]) ks)) fp = Some tp"
  using assms(1)
proof (induction ks)
  case Nil
  then show ?case by simp
next
  case (Cons k ks)
  show ?case
  proof (cases "k = fp")
    case True
    with assms(2) show ?thesis by simp
  next
    case False
    with Cons have IH: "map_of (concat (map (\<lambda>k. case h k of None \<Rightarrow> [] | Some label \<Rightarrow> [label]) ks)) fp = Some tp"
      by simp
    show ?thesis
    proof (cases "h k")
      case None
      with IH show ?thesis by simp
    next
      case (Some label)
      with assms(3) have "fst label = k" by simp
      with False Some IH show ?thesis by (cases label) simp
    qed
  qed
qed


lemma group_entry:
  "((f, t), n) \<in> set (filter (\<lambda>((f, t), n). f = fp) (tool_type_by_file df)) \<longleftrightarrow>
   f = fp \<and> (\<exists>r \<in> set df. file_path r = fp \<and> tool_type r = Some t) \<and>
   n = conv_type_tokens df fp t"
  using tool_type_by_file_entry [of "(f, t)" n df] typed_rows_keys [of f t df]
  by auto

lemma keys_sorted_distinct:
  "sorted (map fst (tool_type_by_file df)) \<and> distinct (map fst (tool_type_by_file df))"
  by (simp add: tool_type_by_file_def comp_def)

text \<open>
  C8. For a conversation with a row that has a \<open>tool_type\<close>, the dominant tool type
  \<open>tp\<close> is the first maximum of the conversation's entries of \<^verbatim>\<open>tool_type_by_file\<close> in
  their iteration order: every entry before it has strictly fewer summed tokens, every
  entry after it has at most as many, and so no tool type of the conversation has more
  summed tokens. The iteration order is the sorted order of the keys, each key once.
\<close>

theorem dominant_type_is_first_maximum:
  assumes "r \<in> set df" and "tool_type r \<noteq> None"
  shows "\<exists>tp before after.
     map_of (dominant_tool_type_df df) (file_path r) = Some tp \<and>
     filter (\<lambda>((f, t), n). f = file_path r) (tool_type_by_file df) =
       before @ ((file_path r, tp), conv_type_tokens df (file_path r) tp) # after \<and>
     (\<forall>e \<in> set before. snd e < conv_type_tokens df (file_path r) tp) \<and>
     (\<forall>e \<in> set after. snd e \<le> conv_type_tokens df (file_path r) tp) \<and>
     (\<forall>r' \<in> set df. \<forall>t. file_path r' = file_path r \<and> tool_type r' = Some t \<longrightarrow>
        conv_type_tokens df (file_path r) t \<le> conv_type_tokens df (file_path r) tp) \<and>
     sorted (map fst (tool_type_by_file df)) \<and> distinct (map fst (tool_type_by_file df))"
proof -
  define fp where "fp = file_path r"
  define S where "S = tool_type_by_file df"
  define G where "G = filter (\<lambda>((f, t), n). f = fp) S"
  define h where "h k = idxmax (filter (\<lambda>((f, t), n). f = k) S)" for k
  from assms obtain t0 where t0: "tool_type r = Some t0" by auto
  have mem: "((fp, t), conv_type_tokens df fp t) \<in> set G"
    if "r' \<in> set df" "file_path r' = fp" "tool_type r' = Some t" for r' t
    unfolding G_def S_def group_entry using that by blast
  have "((fp, t0), conv_type_tokens df fp t0) \<in> set G"
    using assms(1) t0 by (intro mem [of r]) (simp_all add: fp_def)
  then have G_ne: "G \<noteq> []" by auto
  then obtain label where label: "idxmax G = Some label" by (cases G) simp_all
  from idxmax_first_maximum [OF label] obtain v before after
    where split: "G = before @ (label, v) # after"
      and lt: "\<forall>e \<in> set before. snd e < v" and le: "\<forall>e \<in> set after. snd e \<le> v"
    by blast
  obtain lf tp where label_pair: "label = (lf, tp)" by (cases label)
  from split have "((lf, tp), v) \<in> set G" by (simp add: label_pair)
  then have lf: "lf = fp" and v: "v = conv_type_tokens df fp tp"
    unfolding G_def S_def group_entry by simp_all
  have label_eq: "label = (fp, tp)" by (simp add: label_pair lf)
  have hk: "fst l = k" if "h k = Some l" for k l
  proof -
    from that have "idxmax (filter (\<lambda>((f, t), n). f = k) S) = Some l" by (simp add: h_def)
    from idxmax_first_maximum [OF this] obtain w b a
      where "filter (\<lambda>((f, t), n). f = k) S = b @ (l, w) # a" by blast
    then have "(l, w) \<in> set (filter (\<lambda>((f, t), n). f = k) S)" by simp
    then show ?thesis by (cases l) simp
  qed
  have "((fp, tp), v) \<in> set S" using split unfolding G_def label_eq
    by (metis filter_is_subset in_set_conv_decomp subsetD)
  then have "fp \<in> (\<lambda>((f, tp), n). f) ` set S" by force
  then have in_keys: "fp \<in> set (sort (remdups (map (\<lambda>((f, tp), n). f) S)))" by simp
  have hfp: "h fp = Some (fp, tp)" using label label_eq by (simp add: h_def G_def)
  have "map_of (concat (map (\<lambda>k. case h k of None \<Rightarrow> [] | Some label \<Rightarrow> [label])
           (sort (remdups (map (\<lambda>((f, tp), n). f) S))))) fp = Some tp"
    using in_keys hfp hk by (rule map_of_labels)
  then have dom: "map_of (dominant_tool_type_df df) fp = Some tp"
    unfolding dominant_tool_type_df_def dominant_tool_type_def S_def h_def by simp
  have maxi: "conv_type_tokens df fp t \<le> conv_type_tokens df fp tp"
    if "r' \<in> set df" "file_path r' = fp" "tool_type r' = Some t" for r' t
  proof -
    from mem [OF that] have "((fp, t), conv_type_tokens df fp t) \<in> set before \<or>
        ((fp, t), conv_type_tokens df fp t) = (label, v) \<or>
        ((fp, t), conv_type_tokens df fp t) \<in> set after"
      by (auto simp: split)
    then show ?thesis
    proof (elim disjE)
      assume "((fp, t), conv_type_tokens df fp t) \<in> set before"
      with lt have "snd ((fp, t), conv_type_tokens df fp t) < v" by blast
      then show ?thesis by (simp add: v)
    next
      assume "((fp, t), conv_type_tokens df fp t) = (label, v)"
      then show ?thesis by (simp add: v)
    next
      assume "((fp, t), conv_type_tokens df fp t) \<in> set after"
      with le have "snd ((fp, t), conv_type_tokens df fp t) \<le> v" by blast
      then show ?thesis by (simp add: v)
    qed
  qed
  have c1: "map_of (dominant_tool_type_df df) (file_path r) = Some tp"
    using dom by (simp add: fp_def)
  have c2: "filter (\<lambda>((f, t), n). f = file_path r) (tool_type_by_file df) =
       before @ ((file_path r, tp), conv_type_tokens df (file_path r) tp) # after"
    using split by (simp add: G_def S_def label_eq v fp_def)
  have c3: "\<forall>e \<in> set before. snd e < conv_type_tokens df (file_path r) tp"
    using lt by (simp add: v fp_def)
  have c4: "\<forall>e \<in> set after. snd e \<le> conv_type_tokens df (file_path r) tp"
    using le by (simp add: v fp_def)
  have c5: "\<forall>r' \<in> set df. \<forall>t. file_path r' = file_path r \<and> tool_type r' = Some t \<longrightarrow>
        conv_type_tokens df (file_path r) t \<le> conv_type_tokens df (file_path r) tp"
    using maxi unfolding fp_def by blast
  from c1 c2 c3 c4 c5 keys_sorted_distinct [of df] show ?thesis by blast
qed


theorem dominant_type_is_first_maximum_witness:
  "sample_row \<in> set sample_df \<and> tool_type sample_row \<noteq> None \<and>
   (\<exists>tp before after.
     map_of (dominant_tool_type_df sample_df) (file_path sample_row) = Some tp \<and>
     filter (\<lambda>((f, t), n). f = file_path sample_row) (tool_type_by_file sample_df) =
       before @ ((file_path sample_row, tp), conv_type_tokens sample_df (file_path sample_row) tp) # after \<and>
     (\<forall>e \<in> set before. snd e < conv_type_tokens sample_df (file_path sample_row) tp) \<and>
     (\<forall>e \<in> set after. snd e \<le> conv_type_tokens sample_df (file_path sample_row) tp) \<and>
     (\<forall>r' \<in> set sample_df. \<forall>t. file_path r' = file_path sample_row \<and> tool_type r' = Some t \<longrightarrow>
        conv_type_tokens sample_df (file_path sample_row) t \<le>
        conv_type_tokens sample_df (file_path sample_row) tp) \<and>
     sorted (map fst (tool_type_by_file sample_df)) \<and>
     distinct (map fst (tool_type_by_file sample_df))) \<and>
   tool_type_by_file sample_df =
     [((lit ''b.json'', lit ''cat''), 6), ((lit ''b.json'', lit ''ls''), 6)] \<and>
   map_of (dominant_tool_type_df sample_df) (lit ''b.json'') = Some (lit ''cat'')"
proof -
  have row: "sample_row \<in> set sample_df"
    by (simp add: sample_df_def)
  have typed: "tool_type sample_row \<noteq> None"
    by (simp add: sample_row_def)
  have sums: "tool_type_by_file sample_df =
      [((lit ''b.json'', lit ''cat''), 6), ((lit ''b.json'', lit ''ls''), 6)]"
    by (simp add: tool_type_by_file_def typed_rows_def sample_df_def sample_row_def lit_def)
  have dominant: "map_of (dominant_tool_type_df sample_df) (lit ''b.json'') = Some (lit ''cat'')"
    by (simp add: dominant_tool_type_df_def dominant_tool_type_def sums lit_def)
  from dominant_type_is_first_maximum [OF row typed] row typed sums dominant
  show ?thesis by blast
qed

lemma sample_df_enriched: "add_token_columns sample_enc sample_prompts = sample_df"
  by (simp add: eval_text add_token_columns_def count_tokens_def sample_prompts_def
      sample_df_def sample_row_def)

section \<open>Excluded blocks in the tallies\<close>

lemma same_columns_typed_rows:
  "list_all2 same_tool_columns df df' \<Longrightarrow> typed_rows df = typed_rows df'"
  by (induction rule: list_all2_induct)
     (auto simp: typed_rows_def same_tool_columns_def split: option.splits)

lemma same_columns_tool_sum:
  "list_all2 same_tool_columns df df' \<Longrightarrow>
   sum_list (map num_token_from_toolcall df) = sum_list (map num_token_from_toolcall df')"
  by (induction rule: list_all2_induct) (auto simp: same_tool_columns_def)

lemma same_columns_types:
  "list_all2 same_tool_columns df df' \<Longrightarrow> tool_types df = tool_types df'"
proof -
  assume "list_all2 same_tool_columns df df'"
  then have "concat (map (\<lambda>r. case tool_type r of None \<Rightarrow> [] | Some tp \<Rightarrow> [tp]) df) =
             concat (map (\<lambda>r. case tool_type r of None \<Rightarrow> [] | Some tp \<Rightarrow> [tp]) df')"
    by (induction rule: list_all2_induct) (auto simp: same_tool_columns_def)
  then show ?thesis by (simp add: tool_types_def)
qed

lemma same_columns_type_count:
  "list_all2 same_tool_columns df df' \<Longrightarrow>
   length (filter (\<lambda>r. tool_type r = Some tp) df) = length (filter (\<lambda>r. tool_type r = Some tp) df')"
  by (induction rule: list_all2_induct) (auto simp: same_tool_columns_def)

lemma same_columns_type_sum:
  "list_all2 same_tool_columns df df' \<Longrightarrow>
   sum_list (map num_token_from_toolcall (filter (\<lambda>r. tool_type r = Some tp) df)) =
   sum_list (map num_token_from_toolcall (filter (\<lambda>r. tool_type r = Some tp) df'))"
  by (induction rule: list_all2_induct) (auto simp: same_tool_columns_def)

lemma same_columns_tallies:
  assumes "list_all2 same_tool_columns df df'"
  shows "sum_list (map num_token_from_toolcall df) = sum_list (map num_token_from_toolcall df') \<and>
     tool_type_counts df = tool_type_counts df' \<and>
     tool_type_pct df = tool_type_pct df' \<and>
     avg_token_by_type df = avg_token_by_type df' \<and>
     tool_type_by_file df = tool_type_by_file df' \<and>
     dominant_tool_type_df df = dominant_tool_type_df df'"
proof -
  have counts: "tool_type_counts df = tool_type_counts df'"
    by (simp add: tool_type_counts_def same_columns_types [OF assms]
        same_columns_type_count [OF assms])
  have pct: "tool_type_pct df = tool_type_pct df'"
    by (simp add: tool_type_pct_def counts)
  have avg: "avg_token_by_type df = avg_token_by_type df'"
    by (simp add: avg_token_by_type_def same_columns_types [OF assms]
        same_columns_type_count [OF assms] same_columns_type_sum [OF assms])
  have by_file: "tool_type_by_file df = tool_type_by_file df'"
    by (simp add: tool_type_by_file_def same_columns_typed_rows [OF assms])
  have dom: "dominant_tool_type_df df = dominant_tool_type_df df'"
    by (simp add: dominant_tool_type_df_def dominant_tool_type_def by_file)
  from same_columns_tool_sum [OF assms] counts pct avg by_file dom show ?thesis by simp
qed

lemma same_columns_refl: "list_all2 same_tool_columns df df"
  by (rule list_all2_refl) (simp add: same_tool_columns_def)

text \<open>
  C6, as the specification states it, fails in its last part: the excluded block is part
  of the full text, so its tokens are counted in \<^verbatim>\<open>num_token\<close> and move the totals and
  percentages built from it. The two rows below have the same tagged block and differ
  only by the excluded block: their \<^verbatim>\<open>num_token\<close> is 78 and 36 under the sample
  tokenizer, and the conversation falls in the first bucket with the excluded block and
  in the second without it.
\<close>

theorem excluded_block_in_total_counterexample:
  "TOOL_RESULT_findall text_with_excluded = [lit ''<a>xyzuvw'', lit ''<str-replace>yy''] \<and>
   startswith (strip (lit ''<str-replace>yy'')) (lit ''<str-replace>'') \<and>
   TOOL_RESULT_findall text_without_excluded = [lit ''<a>xyzuvw''] \<and>
   map num_token (add_token_columns sample_enc
     [\<lparr>file_path = lit ''b.json'', prompt = Some text_with_excluded, role = lit ''assistant''\<rparr>]) =
     [78] \<and>
   map num_token (add_token_columns sample_enc
     [\<lparr>file_path = lit ''b.json'', prompt = Some text_without_excluded, role = lit ''assistant''\<rparr>]) =
     [36] \<and>
   range_counts (add_token_columns sample_enc
     [\<lparr>file_path = lit ''b.json'', prompt = Some text_with_excluded, role = lit ''assistant''\<rparr>]) =
     [1, 0, 0, 0, 0] \<and>
   range_counts (add_token_columns sample_enc
     [\<lparr>file_path = lit ''b.json'', prompt = Some text_without_excluded, role = lit ''assistant''\<rparr>]) =
     [0, 1, 0, 0, 0]"
  by (simp add: eval_text add_token_columns_def count_tokens_def range_counts_def
      file_tool_pct_def group_keys_def group_sum_def series_div_def bins_def label_indices
      text_with_excluded_def text_without_excluded_def)

text \<open>
  C6, amended. A block of the text whose trimmed inner content starts with the excluded
  marker \<^verbatim>\<open><str-replace>\<close> contributes nothing to \<open>tool_tokens\<close> and cannot become the
  \<open>tool_type\<close>: the two columns of the row are those the loop computes from the other
  blocks alone. Hence it contributes to no tally of tool tokens or tool types: for any
  data frame, with the row's text replaced by a text \<open>text'\<close> that has only the other
  blocks, the sum of the tool tokens, the counts, shares and mean tokens of the tool
  types, the sums by conversation and type and the dominant types are the same.
\<close>

theorem excluded_block_leaves_tool_tallies:
  assumes "TOOL_RESULT_findall text = before @ m # after"
    and "startswith (strip m) (lit ''<str-replace>'')"
    and "TOOL_RESULT_findall text' = before @ after"
  shows "analyze_tool_calls enc (Some text) = tool_loop enc (before @ after) (0, None) \<and>
     (let df = add_token_columns enc
                 (xs @ \<lparr>file_path = fp, prompt = Some text, role = rl\<rparr> # ys);
          df' = add_token_columns enc
                 (xs @ \<lparr>file_path = fp, prompt = Some text', role = rl\<rparr> # ys)
      in sum_list (map num_token_from_toolcall df) = sum_list (map num_token_from_toolcall df') \<and>
         tool_type_counts df = tool_type_counts df' \<and>
         tool_type_pct df = tool_type_pct df' \<and>
         avg_token_by_type df = avg_token_by_type df' \<and>
         tool_type_by_file df = tool_type_by_file df' \<and>
         dominant_tool_type_df df = dominant_tool_type_df df')"
proof -
  have row: "analyze_tool_calls enc (Some text) = tool_loop enc (before @ after) (0, None)"
    using assms(1,2) by (rule excluded_block_row)
  have row': "analyze_tool_calls enc (Some text') = tool_loop enc (before @ after) (0, None)"
    using assms(3) by (simp add: analyze_tool_calls_def)
  have "list_all2 same_tool_columns
     (add_token_columns enc (xs @ \<lparr>file_path = fp, prompt = Some text, role = rl\<rparr> # ys))
     (add_token_columns enc (xs @ \<lparr>file_path = fp, prompt = Some text', role = rl\<rparr> # ys))"
    unfolding add_token_columns_def map_append list.map
    by (intro list_all2_appendI list_all2_Cons [THEN iffD2] conjI same_columns_refl)
       (simp add: same_tool_columns_def row row' split: prod.splits)
  from same_columns_tallies [OF this] row show ?thesis by (simp add: Let_def)
qed

theorem excluded_block_leaves_tool_tallies_witness:
  "TOOL_RESULT_findall text_with_excluded = [lit ''<a>xyzuvw''] @ lit ''<str-replace>yy'' # [] \<and>
   startswith (strip (lit ''<str-replace>yy'')) (lit ''<str-replace>'') \<and>
   TOOL_RESULT_findall text_without_excluded = [lit ''<a>xyzuvw''] @ [] \<and>
   analyze_tool_calls sample_enc (Some text_with_excluded) =
     tool_loop sample_enc ([lit ''<a>xyzuvw''] @ []) (0, None) \<and>
   (let df = add_token_columns sample_enc
               ([] @ \<lparr>file_path = lit ''b.json'', prompt = Some text_with_excluded,
                       role = lit ''assistant''\<rparr> # sample_prompts);
        df' = add_token_columns sample_enc
               ([] @ \<lparr>file_path = lit ''b.json'', prompt = Some text_without_excluded,
                       role = lit ''assistant''\<rparr> # sample_prompts)
    in sum_list (map num_token_from_toolcall df) = sum_list (map num_token_from_toolcall df') \<and>
       tool_type_counts df = tool_type_counts df' \<and>
       tool_type_pct df = tool_type_pct df' \<and>
       avg_token_by_type df = avg_token_by_type df' \<and>
       tool_type_by_file df = tool_type_by_file df' \<and>
       dominant_tool_type_df df = dominant_tool_type_df df') \<and>
   tool_type_counts (add_token_columns sample_enc
     (\<lparr>file_path = lit ''b.json'', prompt = Some text_with_excluded,
       role = lit ''assistant''\<rparr> # sample_prompts)) =
     [(lit ''a'', 1), (lit ''cat'', 1), (lit ''ls'', 1)]"
proof -
  have blocks: "TOOL_RESULT_findall text_with_excluded =
      [lit ''<a>xyzuvw''] @ lit ''<str-replace>yy'' # []"
    by (simp add: eval_text text_with_excluded_def)
  have excl: "startswith (strip (lit ''<str-replace>yy'')) (lit ''<str-replace>'')"
    by (simp add: eval_text)
  have others: "TOOL_RESULT_findall text_without_excluded = [lit ''<a>xyzuvw''] @ []"
    by (simp add: eval_text text_without_excluded_def)
  have counts: "tool_type_counts (add_token_columns sample_enc
     (\<lparr>file_path = lit ''b.json'', prompt = Some text_with_excluded,
       role = lit ''assistant''\<rparr> # sample_prompts)) =
     [(lit ''a'', 1), (lit ''cat'', 1), (lit ''ls'', 1)]"
    by (simp add: eval_text add_token_columns_def count_tokens_def sample_prompts_def
        text_with_excluded_def tool_type_counts_def tool_types_def)
  note inst = excluded_block_leaves_tool_tallies [OF blocks excl others,
      where enc = sample_enc and xs = "[]" and fp = "lit ''b.json''"
        and rl = "lit ''assistant''" and ys = sample_prompts]
  from inst blocks excl others counts show ?thesis by simp
qed

end
